theory Spec2Isabelle
  imports Main "HOL-Library.Sublist"
begin

section \<open>Python values used by the scripts\<close>

text \<open>
  A Python \<open>str\<close> is modelled as a \<open>string\<close> whose characters are read as code points
  below 256. \<open>isspace\<close> is the table of \<open>str.isspace\<close> on that range.
\<close>

definition isspace :: "char \<Rightarrow> bool" where
  "isspace c = (c \<in> set [CHR 0x09, CHR 0x0A, CHR 0x0B, CHR 0x0C, CHR 0x0D,
                         CHR 0x1C, CHR 0x1D, CHR 0x1E, CHR 0x1F, CHR 0x20,
                         CHR 0x85, CHR 0xA0])"

text \<open>\<open>s.strip()\<close>: leading and trailing whitespace removed.\<close>

definition strip :: "string \<Rightarrow> string" where
  "strip s = rev (dropWhile isspace (rev (dropWhile isspace s)))"

text \<open>\<open>s.split(sep)\<close> for a separator of one character; the result is never empty.\<close>

fun split_on :: "char \<Rightarrow> string \<Rightarrow> string list" where
  "split_on sep [] = [[]]"
| "split_on sep (c # cs) =
     (if c = sep then [] # split_on sep cs
      else (case split_on sep cs of
              [] \<Rightarrow> [[c]]
            | w # ws \<Rightarrow> (c # w) # ws))"

definition startswith :: "string \<Rightarrow> string \<Rightarrow> bool" where
  "startswith s p = (take (length p) s = p)"

definition endswith :: "string \<Rightarrow> string \<Rightarrow> bool" where
  "endswith s p = (length p \<le> length s \<and> drop (length s - length p) s = p)"

text \<open>\<open>os.path.join(a, b)\<close> of \<open>posixpath\<close>, for two components.\<close>

definition os_path_join :: "string \<Rightarrow> string \<Rightarrow> string" where
  "os_path_join a b =
     (if startswith b ''/'' then b
      else if a = [] \<or> endswith a ''/'' then a @ b
      else a @ ''/'' @ b)"

subsection \<open>Clock readings and their formats\<close>

record datetime =
  year :: nat
  month :: nat
  day :: nat
  hour :: nat
  minute :: nat
  second :: nat
  microsecond :: nat

text \<open>The character of a decimal digit, for \<open>n\<close> below ten.\<close>

definition digit :: "nat \<Rightarrow> char" where
  "digit n = ''0123456789'' ! n"

fun decimal :: "nat \<Rightarrow> string" where
  "decimal n = (if n < 10 then [digit n] else decimal (n div 10) @ [digit (n mod 10)])"

text \<open>The conversion \<open>%0wd\<close>: decimal digits, padded with zeros on the left to width \<open>w\<close>.\<close>

definition zero_pad :: "nat \<Rightarrow> nat \<Rightarrow> string" where
  "zero_pad w n = replicate (w - length (decimal n)) CHR ''0'' @ decimal n"

text \<open>\<open>dt.strftime('%Y%m%d_%H%M%S')\<close>.\<close>

definition strftime :: "datetime \<Rightarrow> string" where
  "strftime dt =
     zero_pad 4 (year dt) @ zero_pad 2 (month dt) @ zero_pad 2 (day dt) @ ''_'' @
     zero_pad 2 (hour dt) @ zero_pad 2 (minute dt) @ zero_pad 2 (second dt)"

text \<open>\<open>dt.isoformat()\<close>: the microseconds are printed only when they are not zero.\<close>

definition isoformat :: "datetime \<Rightarrow> string" where
  "isoformat dt =
     zero_pad 4 (year dt) @ ''-'' @ zero_pad 2 (month dt) @ ''-'' @ zero_pad 2 (day dt) @ ''T'' @
     zero_pad 2 (hour dt) @ '':'' @ zero_pad 2 (minute dt) @ '':'' @ zero_pad 2 (second dt) @
     (if microsecond dt \<noteq> 0 then ''.'' @ zero_pad 6 (microsecond dt) else [])"

text \<open>
  What the clock can return: years of four digits (on which every platform's \<open>%Y\<close>
  agrees) and fields in their calendar ranges.
\<close>

definition clock_reading :: "datetime \<Rightarrow> bool" where
  "clock_reading dt =
     (1000 \<le> year dt \<and> year dt \<le> 9999 \<and> 1 \<le> month dt \<and> month dt \<le> 12 \<and>
      1 \<le> day dt \<and> day dt \<le> 31 \<and> hour dt < 24 \<and> minute dt < 60 \<and> second dt < 60 \<and>
      microsecond dt < 1000000)"

definition isdigit :: "char \<Rightarrow> bool" where
  "isdigit c = (c \<in> set ''0123456789'')"

text \<open>The shape \<open>YYYYMMDD_HHMMSS\<close>: eight digits, an underscore, six digits.\<close>

definition stamp_form :: "string \<Rightarrow> bool" where
  "stamp_form s =
     (length s = 15 \<and> list_all isdigit (take 8 s) \<and> s ! 8 = CHR ''_'' \<and>
      list_all isdigit (drop 9 s))"

subsection \<open>JSON values, exceptions, log lines\<close>

text \<open>What \<open>json.load\<close> returns. Floating-point numbers are left out.\<close>

datatype json =
    JNull
  | JBool bool
  | JInt int
  | JStr string
  | JList "json list"
  | JDict "(string \<times> json) list"

text \<open>
  The exceptions the two scripts can meet. \<open>MySQL_Error\<close> is \<open>mysql.connector.Error\<close>
  with its message, \<open>CalledProcessError\<close> carries the exit status.
\<close>

datatype exn =
    FileNotFoundError
  | PermissionError
  | JSONDecodeError
  | AttributeError
  | MySQL_Error string
  | CalledProcessError int

text \<open>
  A line written by \<open>logging.info\<close> or \<open>logging.error\<close>: the text before the
  formatted exception, and the exception where the message ends with one.
\<close>

datatype log_line =
    INFO string
  | ERROR string "exn option"

section \<open>The outside world of the deployment runner\<close>

text \<open>
  A script file as \<open>open(path, 'r')\<close> and \<open>read()\<close> find it, and a JSON file as
  \<open>json.load\<close> finds it: absent, not parsable, or holding a value. The text of a JSON
  file is not modelled: \<open>json.dump\<close> followed by \<open>json.load\<close> gives the value back.
  The two views are kept apart, one per path.
\<close>

datatype script_file = Missing | Denied | Text string

datatype json_file = Absent | Unparsable | Document json

text \<open>
  The calls made on the connection and its cursor, and the record of each:
  \<open>Done\<close> when it returned, \<open>Failed\<close> when it raised \<open>mysql.connector.Error\<close>.
\<close>

datatype db_call = Cursor | Execute string | Commit | Close_cursor

datatype db_event = Done db_call | Failed db_call

text \<open>
  \<open>files\<close> and \<open>documents\<close> are what the deployment runner reads; \<open>db_trace\<close> is the
  record of its driver calls; \<open>commands\<close> are the programs the backup runner has started
  and \<open>opened\<close> the files it has opened for writing.
\<close>

record world =
  files :: "string \<Rightarrow> script_file"
  documents :: "string \<Rightarrow> json_file"
  db_trace :: "db_event list"
  commands :: "string list list"
  opened :: "string list"
  log_lines :: "log_line list"

text \<open>
  What the program does not decide: whether \<open>mysql.connector.connect\<close> raises (and with
  which message), whether a call on the connection raises, given the calls made before it,
  and the reading of the clock.
\<close>

record env =
  connect_error :: "string option"
  raises :: "db_event list \<Rightarrow> db_call \<Rightarrow> string option"
  now :: datetime

definition logging :: "log_line \<Rightarrow> world \<Rightarrow> world" where
  "logging l w = w\<lparr>log_lines := log_lines w @ [l]\<rparr>"

section \<open>DatabaseDeployer\<close>

text \<open>
  \<open>self.connection\<close> is \<open>None\<close> or a connection object, of which only the answer of
  \<open>is_connected()\<close> matters.
\<close>

datatype handle = Connected | Closed

record deployer =
  host :: string
  user :: string
  password :: string
  database :: string
  connection :: "handle option"
  deployment_history_file :: string

definition init_deployment_history :: "deployer \<Rightarrow> world \<Rightarrow> world" where
  "init_deployment_history d w =
     (if documents w (deployment_history_file d) = Absent
      then w\<lparr>documents := (documents w)(deployment_history_file d := Document (JList []))\<rparr>
      else w)"

definition DatabaseDeployer ::
  "string \<Rightarrow> string \<Rightarrow> string \<Rightarrow> string \<Rightarrow> world \<Rightarrow> deployer \<times> world" where
  "DatabaseDeployer h u p db w =
     (let d = \<lparr>host = h, user = u, password = p, database = db, connection = None,
                deployment_history_file = ''deployment_history.json''\<rparr>
      in (d, init_deployment_history d w))"

definition connect :: "env \<Rightarrow> deployer \<Rightarrow> world \<Rightarrow> bool \<times> deployer \<times> world" where
  "connect e d w =
     (case connect_error e of
        None \<Rightarrow>
          (True, d\<lparr>connection := Some Connected\<rparr>,
           logging (INFO (''Successfully connected to database: '' @ database d)) w)
      | Some m \<Rightarrow>
          (False, d, logging (ERROR ''Error connecting to database: '' (Some (MySQL_Error m))) w))"

text \<open>
  \<open>close()\<close> of the driver is documented to raise no exception; after it
  \<open>is_connected()\<close> answers \<open>False\<close>.
\<close>

definition disconnect :: "deployer \<Rightarrow> world \<Rightarrow> (exn + unit) \<times> deployer \<times> world" where
  "disconnect d w =
     (if connection d = Some Connected
      then (Inr (), d\<lparr>connection := Some Closed\<rparr>, logging (INFO ''Database connection closed'') w)
      else (Inr (), d, w))"

definition deployment_record :: "datetime \<Rightarrow> string \<Rightarrow> json" where
  "deployment_record t sql_file =
     JDict [(''timestamp'', JStr (isoformat t)),
            (''sql_file'', JStr sql_file),
            (''status'', JStr ''success'')]"

text \<open>
  \<open>_record_deployment\<close>: the file is opened with \<open>'r+'\<close> (it must exist), parsed, and
  \<open>append\<close> is called on the value, which only a list has; the whole list is then written
  back. Nothing is written when an exception is raised.
\<close>

definition record_deployment :: "env \<Rightarrow> deployer \<Rightarrow> world \<Rightarrow> string \<Rightarrow> (exn + unit) \<times> world" where
  "record_deployment e d w sql_file =
     (case documents w (deployment_history_file d) of
        Absent \<Rightarrow> (Inl FileNotFoundError, w)
      | Unparsable \<Rightarrow> (Inl JSONDecodeError, w)
      | Document (JList history) \<Rightarrow>
          (Inr (), w\<lparr>documents := (documents w)(deployment_history_file d :=
                       Document (JList (history @ [deployment_record (now e) sql_file])))\<rparr>)
      | Document _ \<Rightarrow> (Inl AttributeError, w))"

definition get_deployment_history :: "deployer \<Rightarrow> world \<Rightarrow> exn + json" where
  "get_deployment_history d w =
     (case documents w (deployment_history_file d) of
        Absent \<Rightarrow> Inl FileNotFoundError
      | Unparsable \<Rightarrow> Inl JSONDecodeError
      | Document v \<Rightarrow> Inr v)"

text \<open>One call on the connection or the cursor: the environment decides whether it raises.\<close>

definition driver :: "env \<Rightarrow> world \<Rightarrow> db_call \<Rightarrow> (exn + unit) \<times> world" where
  "driver e w c =
     (case raises e (db_trace w) c of
        None \<Rightarrow> (Inr (), w\<lparr>db_trace := db_trace w @ [Done c]\<rparr>)
      | Some m \<Rightarrow> (Inl (MySQL_Error m), w\<lparr>db_trace := db_trace w @ [Failed c]\<rparr>))"

text \<open>The loop over \<open>sql_commands\<close>: an exception leaves it at once.\<close>

fun run_commands :: "env \<Rightarrow> world \<Rightarrow> string list \<Rightarrow> (exn + unit) \<times> world" where
  "run_commands e w [] = (Inr (), w)"
| "run_commands e w (command # rest) =
     (if strip command \<noteq> [] then
        (case driver e w (Execute command) of
           (Inl x, w1) \<Rightarrow> (Inl x, w1)
         | (Inr _, w1) \<Rightarrow>
             (case driver e w1 Commit of
                (Inl x, w2) \<Rightarrow> (Inl x, w2)
              | (Inr _, w2) \<Rightarrow> run_commands e w2 rest))
      else run_commands e w rest)"

definition open_read :: "world \<Rightarrow> string \<Rightarrow> exn + string" where
  "open_read w path =
     (case files w path of
        Missing \<Rightarrow> Inl FileNotFoundError
      | Denied \<Rightarrow> Inl PermissionError
      | Text t \<Rightarrow> Inr t)"

text \<open>The body of the \<open>try\<close> statement of \<open>execute_sql_file\<close>.\<close>

definition try_body :: "env \<Rightarrow> deployer \<Rightarrow> world \<Rightarrow> string \<Rightarrow> (exn + bool) \<times> world" where
  "try_body e d w sql_file =
     (case open_read w sql_file of
        Inl x \<Rightarrow> (Inl x, w)
      | Inr text \<Rightarrow>
          (let sql_commands = split_on CHR '';'' text in
           case driver e w Cursor of
             (Inl x, w1) \<Rightarrow> (Inl x, w1)
           | (Inr _, w1) \<Rightarrow>
               (case run_commands e w1 sql_commands of
                  (Inl x, w2) \<Rightarrow> (Inl x, w2)
                | (Inr _, w2) \<Rightarrow>
                    (case driver e w2 Close_cursor of
                       (Inl x, w3) \<Rightarrow> (Inl x, w3)
                     | (Inr _, w3) \<Rightarrow>
                         (case record_deployment e d w3 sql_file of
                            (Inl x, w4) \<Rightarrow> (Inl x, w4)
                          | (Inr _, w4) \<Rightarrow>
                              (Inr True,
                               logging (INFO (''Successfully executed SQL file: '' @ sql_file)) w4))))))"

text \<open>
  \<open>execute_sql_file\<close>: connect when there is no live connection, run the body, and turn
  \<open>mysql.connector.Error\<close>, and no other exception, into \<open>False\<close>.
\<close>

definition execute_sql_file ::
  "env \<Rightarrow> deployer \<Rightarrow> world \<Rightarrow> string \<Rightarrow> (exn + bool) \<times> deployer \<times> world" where
  "execute_sql_file e d w sql_file =
     (case (if connection d \<noteq> Some Connected then connect e d w else (True, d, w)) of
        (False, d1, w1) \<Rightarrow> (Inr False, d1, w1)
      | (True, d1, w1) \<Rightarrow>
          (case try_body e d1 w1 sql_file of
             (Inl (MySQL_Error m), w2) \<Rightarrow>
               (Inr False, d1,
                logging (ERROR (''Error executing SQL file '' @ sql_file @ '': '')
                               (Some (MySQL_Error m))) w2)
           | (r, w2) \<Rightarrow> (r, d1, w2)))"

text \<open>\<open>_record_deployment\<close> called once per pair of a clock reading and a path, in order.\<close>

fun record_all :: "env \<Rightarrow> deployer \<Rightarrow> world \<Rightarrow> (datetime \<times> string) list \<Rightarrow> (exn + unit) \<times> world" where
  "record_all e d w [] = (Inr (), w)"
| "record_all e d w ((t, sql_file) # rest) =
     (case record_deployment (e\<lparr>now := t\<rparr>) d w sql_file of
        (Inl x, w1) \<Rightarrow> (Inl x, w1)
      | (Inr _, w1) \<Rightarrow> record_all e d w1 rest)"

section \<open>MySQLBackup\<close>

text \<open>
  What \<open>subprocess.run\<close> finds: the program exits with a status and an output, or could
  not be started (\<open>Inl\<close>). With \<open>check=True\<close> a status other than zero raises
  \<open>CalledProcessError\<close>.
\<close>

record completed_process =
  returncode :: int
  stdout :: string

definition subprocess_run :: "exn + completed_process \<Rightarrow> exn + completed_process" where
  "subprocess_run r =
     (case r of
        Inl x \<Rightarrow> Inl x
      | Inr p \<Rightarrow> if returncode p \<noteq> 0 then Inl (CalledProcessError (returncode p)) else Inr p)"

record mysql_backup =
  host :: string
  user :: string
  password :: string
  backup_dir :: string

definition get_databases ::
  "mysql_backup \<Rightarrow> exn + completed_process \<Rightarrow> world \<Rightarrow> (exn + string list) \<times> world" where
  "get_databases b listing w =
     (let cmd = [''mysql'', ''--host='' @ host b, ''--user='' @ user b,
                 ''--password='' @ password b, ''-e'', ''SHOW DATABASES;''];
          w1 = w\<lparr>commands := commands w @ [cmd]\<rparr>
      in case subprocess_run listing of
           Inr result \<Rightarrow>
             (let databases = drop 1 (split_on CHR 0x0A (strip (stdout result)))
              in (Inr (filter (\<lambda>db. db \<notin> set [''information_schema'', ''performance_schema'',
                                                 ''mysql'', ''sys'']) databases), w1))
         | Inl (CalledProcessError rc) \<Rightarrow>
             (Inr [], logging (ERROR ''Error getting databases: '' (Some (CalledProcessError rc))) w1)
         | Inl x \<Rightarrow> (Inl x, w1))"

text \<open>
  What one call of \<open>create_backup\<close> does not decide: the clock, whether the output file
  can be opened for writing, and how the dump program ends.
\<close>

record dump_env =
  clock :: datetime
  open_error :: "exn option"
  dump_result :: "exn + completed_process"

text \<open>The local variable \<open>backup_file\<close> of \<open>create_backup\<close>.\<close>

definition backup_file_path :: "mysql_backup \<Rightarrow> datetime \<Rightarrow> string \<Rightarrow> string" where
  "backup_file_path b t dbname =
     (let timestamp = strftime t
      in os_path_join (backup_dir b) (dbname @ ''_'' @ timestamp @ ''.sql''))"

definition create_backup ::
  "mysql_backup \<Rightarrow> dump_env \<Rightarrow> world \<Rightarrow> string \<Rightarrow> (exn + string option) \<times> world" where
  "create_backup b e w dbname =
     (let backup_file = backup_file_path b (clock e) dbname;
          cmd = [''mysqldump'', ''--host='' @ host b, ''--user='' @ user b,
                 ''--password='' @ password b, ''--single-transaction'', ''--routines'',
                 ''--triggers'', ''--events'', dbname]
      in case open_error e of
           Some x \<Rightarrow> (Inl x, w)
         | None \<Rightarrow>
             (let w1 = w\<lparr>opened := opened w @ [backup_file], commands := commands w @ [cmd]\<rparr>
              in case subprocess_run (dump_result e) of
                   Inr _ \<Rightarrow>
                     (Inr (Some backup_file),
                      logging (INFO (''Successfully created backup for '' @ dbname @ '': '' @
                                     backup_file)) w1)
                 | Inl (CalledProcessError rc) \<Rightarrow>
                     (Inr None,
                      logging (ERROR (''Error creating backup for '' @ dbname @ '': '')
                                     (Some (CalledProcessError rc))) w1)
                 | Inl x \<Rightarrow> (Inl x, w1)))"

text \<open>
  The loop of \<open>backup_all_databases\<close>; \<open>envs k\<close> is the environment of the call of
  \<open>create_backup\<close> in round \<open>k\<close>. \<open>if backup_file:\<close> holds for a string that is not
  empty.
\<close>

fun backup_loop ::
  "mysql_backup \<Rightarrow> (nat \<Rightarrow> dump_env) \<Rightarrow> nat \<Rightarrow> world \<Rightarrow> string list \<Rightarrow> string list \<Rightarrow>
   (exn + string list) \<times> world" where
  "backup_loop b envs k w backup_files [] = (Inr backup_files, w)"
| "backup_loop b envs k w backup_files (dbname # rest) =
     (case create_backup b (envs k) w dbname of
        (Inl x, w1) \<Rightarrow> (Inl x, w1)
      | (Inr backup_file, w1) \<Rightarrow>
          backup_loop b envs (Suc k) w1
            (case backup_file of
               None \<Rightarrow> backup_files
             | Some f \<Rightarrow> if f \<noteq> [] then backup_files @ [f] else backup_files)
            rest)"

definition backup_all_databases ::
  "mysql_backup \<Rightarrow> exn + completed_process \<Rightarrow> (nat \<Rightarrow> dump_env) \<Rightarrow> world \<Rightarrow>
   (exn + string list) \<times> world" where
  "backup_all_databases b listing envs w =
     (case get_databases b listing w of
        (Inl x, w1) \<Rightarrow> (Inl x, w1)
      | (Inr databases, w1) \<Rightarrow> backup_loop b envs 0 w1 [] databases)"

section \<open>Vocabulary of the properties\<close>

text \<open>\<open>entry[key]\<close> on a parsed JSON object.\<close>

fun dict_get :: "json \<Rightarrow> string \<Rightarrow> json option" where
  "dict_get (JDict kvs) k = map_of kvs k"
| "dict_get _ k = None"

text \<open>The driver calls made between two states of the world.\<close>

definition new_events :: "world \<Rightarrow> world \<Rightarrow> db_event list" where
  "new_events w w' = drop (length (db_trace w)) (db_trace w')"

text \<open>The statements handed to \<open>cursor.execute\<close>, in the order of the calls.\<close>

fun statements_of :: "db_event list \<Rightarrow> string list" where
  "statements_of [] = []"
| "statements_of (Done (Execute c) # evs) = c # statements_of evs"
| "statements_of (Failed (Execute c) # evs) = c # statements_of evs"
| "statements_of (ev # evs) = statements_of evs"

fun is_done :: "db_event \<Rightarrow> bool" where
  "is_done (Done c) = True"
| "is_done (Failed c) = False"

text \<open>A candidate statement that is not empty and not made of whitespace only.\<close>

definition non_blank :: "string \<Rightarrow> bool" where
  "non_blank c = (c \<noteq> [] \<and> \<not> list_all isspace c)"

text \<open>Each statement executed and then committed, one after the other.\<close>

definition statement_events :: "string list \<Rightarrow> db_event list" where
  "statement_events cs = concat (map (\<lambda>c. [Done (Execute c), Done Commit]) cs)"

text \<open>Every statement that executed is followed at once by a call of \<open>commit\<close>.\<close>

fun commit_after_each :: "db_event list \<Rightarrow> bool" where
  "commit_after_each [] = True"
| "commit_after_each [Done (Execute c)] = False"
| "commit_after_each (Done (Execute c) # ev # evs) =
     ((ev = Done Commit \<or> ev = Failed Commit) \<and> commit_after_each (ev # evs))"
| "commit_after_each (ev # evs) = commit_after_each evs"

text \<open>
  The driver calls of one run of the body of \<open>execute_sql_file\<close> on the candidate
  statements \<open>cands\<close>: the run stops at the first call that raises (\<open>failed\<close>), or goes
  through all of them and closes the cursor.
\<close>

definition script_run :: "string list \<Rightarrow> db_event list \<Rightarrow> bool \<Rightarrow> bool" where
  "script_run cands evs failed =
     ((failed \<and> evs = [Failed Cursor]) \<or>
      (failed \<and> (\<exists>ds c rest. cands = ds @ c # rest \<and>
          (evs = Done Cursor # statement_events ds @ [Failed (Execute c)] \<or>
           evs = Done Cursor # statement_events ds @ [Done (Execute c), Failed Commit]))) \<or>
      (failed \<and> evs = Done Cursor # statement_events cands @ [Failed Close_cursor]) \<or>
      (\<not> failed \<and> evs = Done Cursor # statement_events cands @ [Done Close_cursor]))"

section \<open>Example inputs\<close>

definition sample_time :: datetime where
  "sample_time = \<lparr>year = 2024, month = 3, day = 9, hour = 14, minute = 5, second = 7,
                   microsecond = 0\<rparr>"

definition sample_world :: world where
  "sample_world =
     \<lparr>files = (\<lambda>p. if p = ''add_column.sql'' then Text ''ALTER TABLE t ADD COLUMN c INT;''
                    else if p = ''three.sql'' then Text ''CREATE TABLE a (x INT);DROP TABLE b;CREATE TABLE c (x INT)''
                    else if p = ''locked.sql'' then Denied
                    else Missing),
      documents = (\<lambda>p. if p = ''deployment_history.json'' then Document (JList []) else Absent),
      db_trace = [], commands = [], opened = [], log_lines = []\<rparr>"

definition sample_env :: env where
  "sample_env = \<lparr>connect_error = None, raises = (\<lambda>tr c. None), now = sample_time\<rparr>"

definition failing_env :: env where
  "failing_env =
     \<lparr>connect_error = None,
      raises = (\<lambda>tr c. if c = Execute ''DROP TABLE b'' then Some ''Unknown table'' else None),
      now = sample_time\<rparr>"

definition sample_deployer :: deployer where
  "sample_deployer =
     fst (DatabaseDeployer ''localhost'' ''student'' ''StrongPassword123'' ''assignment1''
            sample_world)"

section \<open>Vocabulary and example inputs of the backup runner\<close>

text \<open>
  The exit status of the dump program in one call of \<open>create_backup\<close>, when the output
  file could be opened and the program could be started. The dump succeeds when the status
  is zero and fails when it is not.
\<close>

definition dump_exit :: "dump_env \<Rightarrow> int option" where
  "dump_exit e =
     (case open_error e of
        Some x \<Rightarrow> None
      | None \<Rightarrow> (case dump_result e of Inl x \<Rightarrow> None | Inr p \<Rightarrow> Some (returncode p)))"

definition dump_succeeds :: "dump_env \<Rightarrow> bool" where
  "dump_succeeds e = (dump_exit e = Some 0)"

definition dump_fails :: "dump_env \<Rightarrow> bool" where
  "dump_fails e = (case dump_exit e of None \<Rightarrow> False | Some rc \<Rightarrow> rc \<noteq> 0)"

text \<open>A clock reading without its microseconds.\<close>

definition wall_clock_second :: "datetime \<Rightarrow> nat \<times> nat \<times> nat \<times> nat \<times> nat \<times> nat" where
  "wall_clock_second t = (year t, month t, day t, hour t, minute t, second t)"

definition sample_backup :: mysql_backup where
  "sample_backup =
     \<lparr>host = ''localhost'', user = ''student'', password = ''StrongPassword123'',
      backup_dir = ''mysql_backups''\<rparr>"

definition sample_listing :: "exn + completed_process" where
  "sample_listing =
     Inr \<lparr>returncode = 0,
          stdout = ''Database'' @ [CHR 0x0A] @ ''information_schema'' @ [CHR 0x0A] @
                   ''assignment1'' @ [CHR 0x0A] @ ''mysql'' @ [CHR 0x0A] @
                   ''performance_schema'' @ [CHR 0x0A] @ ''shop'' @ [CHR 0x0A] @
                   ''sys'' @ [CHR 0x0A] @ ''blog'' @ [CHR 0x0A]\<rparr>"

definition failed_listing :: completed_process where
  "failed_listing = \<lparr>returncode = 1, stdout = []\<rparr>"

definition sample_dumps :: "nat \<Rightarrow> dump_env" where
  "sample_dumps k =
     \<lparr>clock = sample_time\<lparr>second := 7 + k\<rparr>, open_error = None,
      dump_result = Inr \<lparr>returncode = (if k = 1 then 2 else 0), stdout = []\<rparr>\<rparr>"


section \<open>Properties of the deployment runner\<close>

subsection \<open>The history document\<close>

lemma record_deployment_list:
  "documents w (deployment_history_file d) = Document (JList h) \<Longrightarrow>
   record_deployment e d w f =
     (Inr (), w\<lparr>documents := (documents w)(deployment_history_file d :=
                  Document (JList (h @ [deployment_record (now e) f])))\<rparr>)"
  by (simp add: record_deployment_def)

lemma record_all_list:
  "documents w (deployment_history_file d) = Document (JList h) \<Longrightarrow>
   fst (record_all e d w ds) = Inr () \<and>
   documents (snd (record_all e d w ds)) (deployment_history_file d) =
     Document (JList (h @ map (\<lambda>(t, f). deployment_record t f) ds))"
proof (induction ds arbitrary: w h)
  case Nil
  then show ?case by simp
next
  case (Cons p ds)
  obtain t f where p: "p = (t, f)" by (cases p)
  let ?w1 = "w\<lparr>documents := (documents w)(deployment_history_file d :=
                  Document (JList (h @ [deployment_record t f])))\<rparr>"
  have step: "record_deployment (e\<lparr>now := t\<rparr>) d w f = (Inr (), ?w1)"
    using record_deployment_list [OF Cons.prems, of "e\<lparr>now := t\<rparr>" f] by simp
  have doc1: "documents ?w1 (deployment_history_file d) =
                Document (JList (h @ [deployment_record t f]))"
    by simp
  from Cons.IH [OF doc1] show ?case
    by (simp add: p step)
qed

lemma sample_history:
  "documents sample_world (deployment_history_file sample_deployer) = Document (JList [])"
  by (simp add: sample_world_def sample_deployer_def DatabaseDeployer_def Let_def)

text \<open>
  Claim C1. Starting from a history document that holds the empty list, N calls of the
  record step all complete, and \<open>get_deployment_history\<close> then returns the N entries
  that were appended, in the order of the calls.
\<close>

theorem history_round_trip:
  "documents w (deployment_history_file d) = Document (JList []) \<Longrightarrow>
   fst (record_all e d w ds) = Inr () \<and>
   get_deployment_history d (snd (record_all e d w ds)) =
     Inr (JList (map (\<lambda>(t, f). deployment_record t f) ds)) \<and>
   length (map (\<lambda>(t, f). deployment_record t f) ds) = length ds"
  using record_all_list [of w d "[]" e ds]
  by (simp add: get_deployment_history_def)

theorem history_round_trip_witness:
  "documents sample_world (deployment_history_file sample_deployer) = Document (JList []) \<and>
   get_deployment_history sample_deployer
     (snd (record_all sample_env sample_deployer sample_world
             [(sample_time, ''add_column.sql''), (sample_time\<lparr>second := 9\<rparr>, ''three.sql'')])) =
     Inr (JList [deployment_record sample_time ''add_column.sql'',
                 deployment_record (sample_time\<lparr>second := 9\<rparr>) ''three.sql''])"
  using history_round_trip [OF sample_history, of sample_env
          "[(sample_time, ''add_column.sql''), (sample_time\<lparr>second := 9\<rparr>, ''three.sql'')]"]
        sample_history
  by simp

text \<open>
  Claim C2. On a history document that holds a list, recording one deployment of a path
  completes; the document then holds one entry more, the entries it held before are its
  first entries, unchanged, and the last entry has \<open>sql_file\<close> equal to the path and
  \<open>status\<close> equal to \<open>success\<close>.
\<close>

theorem record_deployment_appends_one:
  "documents w (deployment_history_file d) = Document (JList h) \<Longrightarrow>
   \<exists>h'. fst (record_deployment e d w sql_file) = Inr () \<and>
     get_deployment_history d (snd (record_deployment e d w sql_file)) = Inr (JList h') \<and>
     length h' = length h + 1 \<and> take (length h) h' = h \<and>
     dict_get (last h') ''sql_file'' = Some (JStr sql_file) \<and>
     dict_get (last h') ''status'' = Some (JStr ''success'')"
  by (simp add: record_deployment_list get_deployment_history_def deployment_record_def)

theorem record_deployment_appends_one_witness:
  "documents sample_world (deployment_history_file sample_deployer) = Document (JList []) \<and>
   (\<exists>h'. fst (record_deployment sample_env sample_deployer sample_world ''three.sql'') = Inr () \<and>
     get_deployment_history sample_deployer
       (snd (record_deployment sample_env sample_deployer sample_world ''three.sql'')) =
       Inr (JList h') \<and>
     length h' = length ([] :: json list) + 1 \<and> take (length ([] :: json list)) h' = [] \<and>
     dict_get (last h') ''sql_file'' = Some (JStr ''three.sql'') \<and>
     dict_get (last h') ''status'' = Some (JStr ''success''))"
  using record_deployment_appends_one [OF sample_history, of sample_env "''three.sql''"]
        sample_history
  by simp

subsection \<open>Running a script\<close>

lemma strip_empty_iff: "strip s = [] \<longleftrightarrow> list_all isspace s"
proof -
  have "dropWhile isspace s = [] \<or> \<not> isspace (hd (dropWhile isspace s))"
    using hd_dropWhile by blast
  then have "(\<forall>x\<in>set (dropWhile isspace s). isspace x) \<longleftrightarrow> dropWhile isspace s = []"
    by (cases "dropWhile isspace s") (auto dest: set_dropWhileD)
  then show ?thesis
    by (simp add: strip_def dropWhile_eq_Nil_conv list_all_iff)
qed

lemma strip_non_blank: "strip c \<noteq> [] \<longleftrightarrow> non_blank c"
  by (auto simp: strip_empty_iff non_blank_def)

lemma statement_events_Cons:
  "statement_events (c # cs) = Done (Execute c) # Done Commit # statement_events cs"
  by (simp add: statement_events_def)

lemma statement_events_Nil: "statement_events [] = []"
  by (simp add: statement_events_def)

lemma run_commands_shape:
  "run_commands e w cs = (r, w') \<Longrightarrow>
   \<exists>ds rest tail. filter non_blank cs = ds @ rest \<and>
     w' = w\<lparr>db_trace := db_trace w @ statement_events ds @ tail\<rparr> \<and>
     ((r = Inr () \<and> rest = [] \<and> tail = []) \<or>
      (\<exists>m c rest'. r = Inl (MySQL_Error m) \<and> rest = c # rest' \<and>
          (tail = [Failed (Execute c)] \<or> tail = [Done (Execute c), Failed Commit])))"
proof (induction cs arbitrary: w)
  case Nil
  then show ?case by (auto simp: statement_events_Nil)
next
  case (Cons command cs)
  show ?case
  proof (cases "non_blank command")
    case False
    with Cons.prems have "run_commands e w cs = (r, w')"
      by (simp add: strip_non_blank)
    from Cons.IH [OF this] False show ?thesis by simp
  next
    case True
    show ?thesis
    proof (cases "raises e (db_trace w) (Execute command)")
      case (Some m)
      with Cons.prems True
      have "r = Inl (MySQL_Error m)" "w' = w\<lparr>db_trace := db_trace w @ [Failed (Execute command)]\<rparr>"
        by (auto simp: strip_non_blank driver_def)
      then show ?thesis using True
        by (intro exI [of _ "[]"] exI [of _ "command # filter non_blank cs"]
                  exI [of _ "[Failed (Execute command)]"])
           (simp add: statement_events_Nil)
    next
      case None
      let ?w1 = "w\<lparr>db_trace := db_trace w @ [Done (Execute command)]\<rparr>"
      show ?thesis
      proof (cases "raises e (db_trace ?w1) Commit")
        case (Some m)
        with Cons.prems True None
        have "r = Inl (MySQL_Error m)"
             "w' = w\<lparr>db_trace := db_trace w @ [Done (Execute command), Failed Commit]\<rparr>"
          by (auto simp: strip_non_blank driver_def)
        then show ?thesis using True
          by (intro exI [of _ "[]"] exI [of _ "command # filter non_blank cs"]
                    exI [of _ "[Done (Execute command), Failed Commit]"])
             (simp add: statement_events_Nil)
      next
        case c: None
        let ?w2 = "w\<lparr>db_trace := db_trace w @ [Done (Execute command), Done Commit]\<rparr>"
        from Cons.prems True None c have "run_commands e ?w2 cs = (r, w')"
          by (simp add: strip_non_blank driver_def)
        from Cons.IH [OF this] obtain ds rest tail where
          f: "filter non_blank cs = ds @ rest" and
          w': "w' = ?w2\<lparr>db_trace := db_trace ?w2 @ statement_events ds @ tail\<rparr>" and
          r: "(r = Inr () \<and> rest = [] \<and> tail = []) \<or>
              (\<exists>m c rest'. r = Inl (MySQL_Error m) \<and> rest = c # rest' \<and>
                (tail = [Failed (Execute c)] \<or> tail = [Done (Execute c), Failed Commit]))"
          by blast
        show ?thesis
          using True f w' r
          by (intro exI [of _ "command # ds"] exI [of _ rest] exI [of _ tail])
             (simp add: statement_events_Cons)
      qed
    qed
  qed
qed

lemma statements_of_statement_events:
  "statements_of (statement_events ds @ tail) = ds @ statements_of tail"
  by (induction ds) (simp_all add: statement_events_Nil statement_events_Cons)

lemma commit_after_each_statement_events:
  "commit_after_each (statement_events ds @ tail) = commit_after_each tail"
  by (induction ds) (simp_all add: statement_events_Nil statement_events_Cons)

lemma is_done_statement_events: "list_all is_done (statement_events ds)"
  by (induction ds) (simp_all add: statement_events_Nil statement_events_Cons)

lemma Failed_notin_statement_events: "Failed x \<notin> set (statement_events ds)"
  by (induction ds) (simp_all add: statement_events_Nil statement_events_Cons)

lemma script_run_prefix: "script_run cands evs failed \<Longrightarrow> prefix (statements_of evs) cands"
  by (auto simp: script_run_def statements_of_statement_events)

lemma script_run_commit: "script_run cands evs failed \<Longrightarrow> commit_after_each evs"
  by (auto simp: script_run_def commit_after_each_statement_events)

lemma script_run_all_done:
  "script_run cands evs failed \<Longrightarrow> list_all is_done evs \<Longrightarrow>
   \<not> failed \<and> evs = Done Cursor # statement_events cands @ [Done Close_cursor]"
  by (auto simp: script_run_def)

lemma script_run_failed_execute:
  "script_run cands evs failed \<Longrightarrow> Failed (Execute c) \<in> set evs \<Longrightarrow>
   failed \<and> (\<exists>ds. evs = Done Cursor # statement_events ds @ [Failed (Execute c)] \<and>
               prefix (ds @ [c]) cands)"
  by (auto simp: script_run_def Failed_notin_statement_events)

lemma record_deployment_cases:
  "record_deployment e d w f = (r, w') \<Longrightarrow>
   db_trace w' = db_trace w \<and> files w' = files w \<and>
   (r = Inr () \<or> (w' = w \<and> r \<in> {Inl FileNotFoundError, Inl JSONDecodeError, Inl AttributeError}))"
  by (auto simp: record_deployment_def split: json_file.splits json.splits)

lemma try_body_shape:
  assumes "files w f = Text text" and "try_body e d w f = (r, w')"
  shows "\<exists>evs failed. db_trace w' = db_trace w @ evs \<and> files w' = files w \<and>
           script_run (filter non_blank (split_on CHR '';'' text)) evs failed \<and>
           (failed \<longleftrightarrow> (\<exists>m. r = Inl (MySQL_Error m))) \<and>
           (r \<noteq> Inr True \<longrightarrow> documents w' = documents w \<and> log_lines w' = log_lines w) \<and>
           r \<noteq> Inr False"
proof (cases "raises e (db_trace w) Cursor")
  case (Some m)
  with assms have "r = Inl (MySQL_Error m)" "w' = w\<lparr>db_trace := db_trace w @ [Failed Cursor]\<rparr>"
    by (auto simp: try_body_def open_read_def driver_def)
  then show ?thesis
    by (intro exI [of _ "[Failed Cursor]"] exI [of _ True]) (simp add: script_run_def)
next
  case None
  let ?cands = "filter non_blank (split_on CHR '';'' text)"
  let ?w1 = "w\<lparr>db_trace := db_trace w @ [Done Cursor]\<rparr>"
  obtain r2 w2 where rc: "run_commands e ?w1 (split_on CHR '';'' text) = (r2, w2)"
    by (cases "run_commands e ?w1 (split_on CHR '';'' text)")
  from run_commands_shape [OF rc] obtain ds rest tail where
    f: "?cands = ds @ rest" and
    w2: "w2 = ?w1\<lparr>db_trace := db_trace ?w1 @ statement_events ds @ tail\<rparr>" and
    r2: "(r2 = Inr () \<and> rest = [] \<and> tail = []) \<or>
         (\<exists>m c rest'. r2 = Inl (MySQL_Error m) \<and> rest = c # rest' \<and>
            (tail = [Failed (Execute c)] \<or> tail = [Done (Execute c), Failed Commit]))"
    by blast
  from r2 show ?thesis
  proof
    assume "\<exists>m c rest'. r2 = Inl (MySQL_Error m) \<and> rest = c # rest' \<and>
            (tail = [Failed (Execute c)] \<or> tail = [Done (Execute c), Failed Commit])"
    then obtain m c rest' where m: "r2 = Inl (MySQL_Error m)" and rest: "rest = c # rest'" and
      tail: "tail = [Failed (Execute c)] \<or> tail = [Done (Execute c), Failed Commit]"
      by blast
    from assms None rc m have "r = Inl (MySQL_Error m)" "w' = w2"
      by (auto simp: try_body_def open_read_def driver_def)
    then show ?thesis using f rest tail w2
      by (intro exI [of _ "Done Cursor # statement_events ds @ tail"] exI [of _ True])
         (auto simp: script_run_def)
  next
    assume ok: "r2 = Inr () \<and> rest = [] \<and> tail = []"
    then have w2': "w2 = w\<lparr>db_trace := db_trace w @ Done Cursor # statement_events ?cands\<rparr>"
      using w2 f by simp
    show ?thesis
    proof (cases "raises e (db_trace w2) Close_cursor")
      case (Some m)
      with assms None rc ok
      have "r = Inl (MySQL_Error m)" "w' = w2\<lparr>db_trace := db_trace w2 @ [Failed Close_cursor]\<rparr>"
        by (auto simp: try_body_def open_read_def driver_def)
      then show ?thesis using w2'
        by (intro exI [of _ "Done Cursor # statement_events ?cands @ [Failed Close_cursor]"]
                  exI [of _ True])
           (simp add: script_run_def)
    next
      case c: None
      let ?w3 = "w2\<lparr>db_trace := db_trace w2 @ [Done Close_cursor]\<rparr>"
      obtain r4 w4 where rd: "record_deployment e d ?w3 f = (r4, w4)"
        by (cases "record_deployment e d ?w3 f")
      from record_deployment_cases [OF rd]
      have tr4: "db_trace w4 = db_trace ?w3" and fl4: "files w4 = files ?w3" and
        r4: "r4 = Inr () \<or> (w4 = ?w3 \<and>
               r4 \<in> {Inl FileNotFoundError, Inl JSONDecodeError, Inl AttributeError})"
        by auto
      from r4 show ?thesis
      proof
        assume "r4 = Inr ()"
        with assms None rc ok c rd
        have "r = Inr True"
             "w' = logging (INFO (''Successfully executed SQL file: '' @ f)) w4"
          by (auto simp: try_body_def open_read_def driver_def)
        then show ?thesis using w2' tr4 fl4
          by (intro exI [of _ "Done Cursor # statement_events ?cands @ [Done Close_cursor]"]
                    exI [of _ False])
             (simp add: script_run_def logging_def)
      next
        assume a: "w4 = ?w3 \<and> r4 \<in> {Inl FileNotFoundError, Inl JSONDecodeError, Inl AttributeError}"
        then obtain x where x: "r4 = Inl x" "x \<in> {FileNotFoundError, JSONDecodeError, AttributeError}"
          by auto
        with assms None rc ok c rd a
        have "r = Inl x" "w' = ?w3"
          by (auto simp: try_body_def open_read_def driver_def)
        then show ?thesis using w2' x
          by (intro exI [of _ "Done Cursor # statement_events ?cands @ [Done Close_cursor]"]
                    exI [of _ False])
             (auto simp: script_run_def)
      qed
    qed
  qed
qed


lemma execute_sql_file_no_connection:
  assumes "connection d \<noteq> Some Connected" and "connect_error e \<noteq> None"
    and "execute_sql_file e d w f = (r, d', w')"
  shows "r = Inr False \<and> db_trace w' = db_trace w \<and> documents w' = documents w"
  using assms
  by (auto simp: execute_sql_file_def connect_def logging_def split: option.splits)

lemma execute_sql_file_connected:
  assumes "connection d = Some Connected \<or> connect_error e = None"
  shows "\<exists>d1 w1. db_trace w1 = db_trace w \<and> documents w1 = documents w \<and> files w1 = files w \<and>
           execute_sql_file e d w f =
             (case try_body e d1 w1 f of
                (Inl (MySQL_Error m), w2) \<Rightarrow>
                  (Inr False, d1,
                   logging (ERROR (''Error executing SQL file '' @ f @ '': '')
                                  (Some (MySQL_Error m))) w2)
              | (r, w2) \<Rightarrow> (r, d1, w2))"
proof (cases "connection d = Some Connected")
  case True
  then show ?thesis
    by (intro exI [of _ d] exI [of _ w]) (simp add: execute_sql_file_def)
next
  case False
  with assms have "connect_error e = None" by simp
  with False show ?thesis
    by (intro exI [of _ "d\<lparr>connection := Some Connected\<rparr>"]
              exI [of _ "logging (INFO (''Successfully connected to database: '' @ database d)) w"])
       (simp add: execute_sql_file_def connect_def logging_def)
qed

lemma execute_sql_file_unreadable:
  assumes "connection d = Some Connected \<or> connect_error e = None"
    and "\<forall>t. files w f \<noteq> Text t"
    and "execute_sql_file e d w f = (r, d', w')"
  shows "r = Inl (if files w f = Missing then FileNotFoundError else PermissionError) \<and>
         db_trace w' = db_trace w \<and> documents w' = documents w"
proof -
  from execute_sql_file_connected [OF assms(1), of w f] obtain d1 w1 where
    w1: "db_trace w1 = db_trace w" "documents w1 = documents w" "files w1 = files w" and
    ex: "execute_sql_file e d w f =
             (case try_body e d1 w1 f of
                (Inl (MySQL_Error m), w2) \<Rightarrow>
                  (Inr False, d1,
                   logging (ERROR (''Error executing SQL file '' @ f @ '': '')
                                  (Some (MySQL_Error m))) w2)
              | (r, w2) \<Rightarrow> (r, d1, w2))"
    by blast
  have "try_body e d1 w1 f = (Inl (if files w f = Missing then FileNotFoundError else PermissionError), w1)"
    using assms(2) w1 by (cases "files w f") (auto simp: try_body_def open_read_def)
  with ex assms(3) w1 show ?thesis
    by (auto split: if_splits)
qed

lemma execute_sql_file_shape:
  assumes "connection d = Some Connected \<or> connect_error e = None"
    and "files w f = Text text"
    and "execute_sql_file e d w f = (r, d', w')"
  shows "\<exists>evs failed. db_trace w' = db_trace w @ evs \<and>
           script_run (filter non_blank (split_on CHR '';'' text)) evs failed \<and>
           (failed \<longleftrightarrow> r = Inr False) \<and>
           (r \<noteq> Inr True \<longrightarrow> documents w' = documents w)"
proof -
  from execute_sql_file_connected [OF assms(1), of w f] obtain d1 w1 where
    w1: "db_trace w1 = db_trace w" "documents w1 = documents w" "files w1 = files w" and
    ex: "execute_sql_file e d w f =
             (case try_body e d1 w1 f of
                (Inl (MySQL_Error m), w2) \<Rightarrow>
                  (Inr False, d1,
                   logging (ERROR (''Error executing SQL file '' @ f @ '': '')
                                  (Some (MySQL_Error m))) w2)
              | (r, w2) \<Rightarrow> (r, d1, w2))"
    by blast
  obtain r2 w2 where tb: "try_body e d1 w1 f = (r2, w2)"
    by (cases "try_body e d1 w1 f")
  from assms(2) w1 have "files w1 f = Text text" by simp
  from try_body_shape [OF this tb] obtain evs failed where
    tr: "db_trace w2 = db_trace w1 @ evs" and
    sr: "script_run (filter non_blank (split_on CHR '';'' text)) evs failed" and
    fl: "failed \<longleftrightarrow> (\<exists>m. r2 = Inl (MySQL_Error m))" and
    doc: "r2 \<noteq> Inr True \<longrightarrow> documents w2 = documents w1 \<and> log_lines w2 = log_lines w1" and
    nf: "r2 \<noteq> Inr False"
    by blast
  show ?thesis
  proof (cases failed)
    case True
    with fl obtain m where m: "r2 = Inl (MySQL_Error m)" by blast
    with ex tb assms(3) have "r = Inr False"
      "w' = logging (ERROR (''Error executing SQL file '' @ f @ '': '') (Some (MySQL_Error m))) w2"
      by auto
    with True tr sr doc m w1 show ?thesis
      by (intro exI [of _ evs] exI [of _ True]) (simp add: logging_def)
  next
    case False
    with fl have "\<forall>m. r2 \<noteq> Inl (MySQL_Error m)" by simp
    with ex tb assms(3) have "r = r2" "w' = w2"
      by (auto split: sum.splits exn.splits)
    with False tr sr doc nf w1 show ?thesis
      by (intro exI [of _ evs] exI [of _ False]) simp
  qed
qed

lemma new_events_append: "db_trace w' = db_trace w @ evs \<Longrightarrow> new_events w w' = evs"
  by (simp add: new_events_def)

lemma new_events_same: "db_trace w' = db_trace w \<Longrightarrow> new_events w w' = []"
  by (simp add: new_events_def)

lemma script_run_failed_ends:
  "script_run cands evs True \<Longrightarrow> \<exists>c. evs \<noteq> [] \<and> last evs = Failed c"
  by (auto simp: script_run_def)

lemmas run_defs = execute_sql_file_def try_body_def open_read_def driver_def connect_def
  logging_def record_deployment_def sample_world_def sample_env_def failing_env_def
  sample_deployer_def DatabaseDeployer_def init_deployment_history_def strip_def isspace_def
  Let_def

text \<open>
  Claim C3. In a run of \<open>execute_sql_file\<close> in which the execution of a statement raises
  a database error, that call is the last call made on the database (every call before it
  returned, no statement is executed after it), the result is \<open>False\<close>, and no JSON
  document, the history among them, is changed.
\<close>

theorem execute_sql_file_failing_statement:
  assumes "execute_sql_file e d w sql_file = (r, d', w')"
    and "Failed (Execute c) \<in> set (new_events w w')"
  shows "r = Inr False \<and> documents w' = documents w \<and>
         (\<exists>ds. new_events w w' = Done Cursor # statement_events ds @ [Failed (Execute c)])"
proof (cases "connection d = Some Connected \<or> connect_error e = None")
  case False
  then have "db_trace w' = db_trace w"
    using execute_sql_file_no_connection [OF _ _ assms(1)] by simp
  with assms(2) show ?thesis by (simp add: new_events_same)
next
  case conn: True
  show ?thesis
  proof (cases "files w sql_file")
    case (Text body)
    from execute_sql_file_shape [OF conn Text assms(1)] obtain evs failed where
      tr: "db_trace w' = db_trace w @ evs" and
      sr: "script_run (filter non_blank (split_on CHR '';'' body)) evs failed" and
      fl: "failed \<longleftrightarrow> r = Inr False" and
      doc: "r \<noteq> Inr True \<longrightarrow> documents w' = documents w"
      by blast
    from tr have ne: "new_events w w' = evs" by (rule new_events_append)
    with assms(2) script_run_failed_execute [OF sr, of c] fl doc show ?thesis by auto
  next
    case Missing
    then have "db_trace w' = db_trace w"
      using execute_sql_file_unreadable [OF conn _ assms(1)] by simp
    with assms(2) show ?thesis by (simp add: new_events_same)
  next
    case Denied
    then have "db_trace w' = db_trace w"
      using execute_sql_file_unreadable [OF conn _ assms(1)] by simp
    with assms(2) show ?thesis by (simp add: new_events_same)
  qed
qed

theorem execute_sql_file_failing_statement_witness:
  "Failed (Execute ''DROP TABLE b'') \<in>
     set (new_events sample_world
            (snd (snd (execute_sql_file failing_env sample_deployer sample_world ''three.sql'')))) \<and>
   fst (execute_sql_file failing_env sample_deployer sample_world ''three.sql'') = Inr False \<and>
   documents (snd (snd (execute_sql_file failing_env sample_deployer sample_world ''three.sql''))) =
     documents sample_world \<and>
   new_events sample_world
     (snd (snd (execute_sql_file failing_env sample_deployer sample_world ''three.sql''))) =
     [Done Cursor, Done (Execute ''CREATE TABLE a (x INT)''), Done Commit,
      Failed (Execute ''DROP TABLE b'')]"
proof -
  let ?X = "execute_sql_file failing_env sample_deployer sample_world ''three.sql''"
  have run: "?X = (fst ?X, fst (snd ?X), snd (snd ?X))" by simp
  have tr: "new_events sample_world (snd (snd ?X)) =
              [Done Cursor, Done (Execute ''CREATE TABLE a (x INT)''), Done Commit,
               Failed (Execute ''DROP TABLE b'')]"
    by (simp add: new_events_def run_defs)
  have h: "Failed (Execute ''DROP TABLE b'') \<in> set (new_events sample_world (snd (snd ?X)))"
    by (simp add: tr)
  from execute_sql_file_failing_statement [OF run h] tr h show ?thesis by simp
qed

text \<open>
  Claim C4, as amended. When a connection is live or can be opened and the script file is
  readable, \<open>execute_sql_file\<close> splits the text on \<open>;\<close> and hands to \<open>execute\<close>, in
  their textual order, the candidates that are not empty and not whitespace only, up to
  the first call on which the driver raises an error; every statement that executed is
  followed at once by a commit; and when no call raises, the calls are exactly: open the
  cursor, execute and commit each such candidate, close the cursor.

  The last conjunct gives the calls of the run in full. Either no call raises, and they are
  the calls just listed; or the result is \<open>False\<close> and the calls end with the one call
  that raised, every call before it having returned: opening the cursor, the execution of
  a candidate after all candidates before it were executed and committed, the commit of
  such a candidate, or closing the cursor after all candidates.
\<close>

theorem execute_sql_file_statements:
  assumes "connection d = Some Connected \<or> connect_error e = None"
    and "files w sql_file = Text text"
    and "execute_sql_file e d w sql_file = (r, d', w')"
  shows "db_trace w' = db_trace w @ new_events w w' \<and>
         prefix (statements_of (new_events w w')) (filter non_blank (split_on CHR '';'' text)) \<and>
         commit_after_each (new_events w w') \<and>
         (list_all is_done (new_events w w') \<longrightarrow>
            new_events w w' =
              Done Cursor # statement_events (filter non_blank (split_on CHR '';'' text)) @
              [Done Close_cursor]) \<and>
         ((r = Inr False \<and> new_events w w' = [Failed Cursor]) \<or>
          (r = Inr False \<and>
           (\<exists>ds c rest. filter non_blank (split_on CHR '';'' text) = ds @ c # rest \<and>
              (new_events w w' = Done Cursor # statement_events ds @ [Failed (Execute c)] \<or>
               new_events w w' =
                 Done Cursor # statement_events ds @ [Done (Execute c), Failed Commit]))) \<or>
          (r = Inr False \<and>
           new_events w w' =
             Done Cursor # statement_events (filter non_blank (split_on CHR '';'' text)) @
             [Failed Close_cursor]) \<or>
          (r \<noteq> Inr False \<and>
           new_events w w' =
             Done Cursor # statement_events (filter non_blank (split_on CHR '';'' text)) @
             [Done Close_cursor]))"
proof -
  from execute_sql_file_shape [OF assms] obtain evs failed where
    tr: "db_trace w' = db_trace w @ evs" and
    sr: "script_run (filter non_blank (split_on CHR '';'' text)) evs failed" and
    fl: "failed \<longleftrightarrow> r = Inr False"
    by blast
  from tr have ne: "new_events w w' = evs" by (rule new_events_append)
  from sr fl have "script_run (filter non_blank (split_on CHR '';'' text)) evs (r = Inr False)"
    by simp
  then have calls:
    "(r = Inr False \<and> evs = [Failed Cursor]) \<or>
     (r = Inr False \<and>
      (\<exists>ds c rest. filter non_blank (split_on CHR '';'' text) = ds @ c # rest \<and>
         (evs = Done Cursor # statement_events ds @ [Failed (Execute c)] \<or>
          evs = Done Cursor # statement_events ds @ [Done (Execute c), Failed Commit]))) \<or>
     (r = Inr False \<and>
      evs = Done Cursor # statement_events (filter non_blank (split_on CHR '';'' text)) @
            [Failed Close_cursor]) \<or>
     (r \<noteq> Inr False \<and>
      evs = Done Cursor # statement_events (filter non_blank (split_on CHR '';'' text)) @
            [Done Close_cursor])"
    unfolding script_run_def .
  have first: "db_trace w' = db_trace w @ new_events w w' \<and>
         prefix (statements_of (new_events w w')) (filter non_blank (split_on CHR '';'' text)) \<and>
         commit_after_each (new_events w w') \<and>
         (list_all is_done (new_events w w') \<longrightarrow>
            new_events w w' =
              Done Cursor # statement_events (filter non_blank (split_on CHR '';'' text)) @
              [Done Close_cursor])"
    using tr script_run_prefix [OF sr] script_run_commit [OF sr] script_run_all_done [OF sr]
    by (simp add: ne)
  from first calls show ?thesis unfolding ne by (intro conjI) blast+
qed

theorem execute_sql_file_statements_witness:
  "(connection sample_deployer = Some Connected \<or> connect_error sample_env = None) \<and>
   files sample_world ''add_column.sql'' = Text ''ALTER TABLE t ADD COLUMN c INT;'' \<and>
   list_all is_done
     (new_events sample_world
        (snd (snd (execute_sql_file sample_env sample_deployer sample_world ''add_column.sql'')))) \<and>
   new_events sample_world
     (snd (snd (execute_sql_file sample_env sample_deployer sample_world ''add_column.sql''))) =
     [Done Cursor, Done (Execute ''ALTER TABLE t ADD COLUMN c INT''), Done Commit,
      Done Close_cursor] \<and>
   (connection sample_deployer = Some Connected \<or> connect_error failing_env = None) \<and>
   files sample_world ''three.sql'' =
     Text ''CREATE TABLE a (x INT);DROP TABLE b;CREATE TABLE c (x INT)'' \<and>
   fst (execute_sql_file failing_env sample_deployer sample_world ''three.sql'') = Inr False \<and>
   new_events sample_world
     (snd (snd (execute_sql_file failing_env sample_deployer sample_world ''three.sql''))) =
     Done Cursor # statement_events [''CREATE TABLE a (x INT)''] @
     [Failed (Execute ''DROP TABLE b'')]"
proof -
  let ?X = "execute_sql_file sample_env sample_deployer sample_world ''add_column.sql''"
  let ?Y = "execute_sql_file failing_env sample_deployer sample_world ''three.sql''"
  have conn: "connection sample_deployer = Some Connected \<or> connect_error sample_env = None"
    by (simp add: sample_env_def)
  have readable: "files sample_world ''add_column.sql'' = Text ''ALTER TABLE t ADD COLUMN c INT;''"
    by (simp add: sample_world_def)
  have run: "?X = (fst ?X, fst (snd ?X), snd (snd ?X))" by simp
  have cands: "filter non_blank (split_on CHR '';'' ''ALTER TABLE t ADD COLUMN c INT;'') =
                 [''ALTER TABLE t ADD COLUMN c INT'']"
    by (simp add: non_blank_def isspace_def)
  have ok: "list_all is_done (new_events sample_world (snd (snd ?X)))"
    by (simp add: new_events_def run_defs)
  from execute_sql_file_statements [OF conn readable run] ok cands
  have good: "new_events sample_world (snd (snd ?X)) =
                [Done Cursor, Done (Execute ''ALTER TABLE t ADD COLUMN c INT''), Done Commit,
                 Done Close_cursor]"
    by (simp add: statement_events_def)
  have conn': "connection sample_deployer = Some Connected \<or> connect_error failing_env = None"
    by (simp add: failing_env_def)
  have readable': "files sample_world ''three.sql'' =
                     Text ''CREATE TABLE a (x INT);DROP TABLE b;CREATE TABLE c (x INT)''"
    by (simp add: sample_world_def)
  have run': "?Y = (fst ?Y, fst (snd ?Y), snd (snd ?Y))" by simp
  have not_all: "\<not> list_all is_done (new_events sample_world (snd (snd ?Y)))"
    by (simp add: new_events_def run_defs)
  have calls: "new_events sample_world (snd (snd ?Y)) =
                 Done Cursor # statement_events [''CREATE TABLE a (x INT)''] @
                 [Failed (Execute ''DROP TABLE b'')]"
    by (simp add: new_events_def run_defs statement_events_def)
  from execute_sql_file_statements [OF conn' readable' run'] not_all
  have bad: "fst ?Y = Inr False"
    by (auto simp: is_done_statement_events)
  from conn readable ok good conn' readable' bad calls show ?thesis by simp
qed

text \<open>
  The claim as stated fails where a statement raises: of the three candidates of the
  script \<open>CREATE TABLE a (x INT);DROP TABLE b;CREATE TABLE c (x INT)\<close>, none of them
  blank, the third is never handed to \<open>execute\<close> when the second raises.
\<close>

theorem execute_sql_file_statements_counterexample:
  "files sample_world ''three.sql'' =
     Text ''CREATE TABLE a (x INT);DROP TABLE b;CREATE TABLE c (x INT)'' \<and>
   filter non_blank
     (split_on CHR '';'' ''CREATE TABLE a (x INT);DROP TABLE b;CREATE TABLE c (x INT)'') =
     [''CREATE TABLE a (x INT)'', ''DROP TABLE b'', ''CREATE TABLE c (x INT)''] \<and>
   statements_of
     (new_events sample_world
        (snd (snd (execute_sql_file failing_env sample_deployer sample_world ''three.sql'')))) =
     [''CREATE TABLE a (x INT)'', ''DROP TABLE b'']"
  by (simp add: new_events_def run_defs non_blank_def)

text \<open>
  Claim C10. \<open>execute_sql_file\<close> returns \<open>False\<close> only when connecting failed or a call
  on the database raised a driver error. When a connection is live or can be opened and
  the script file is missing or cannot be read, the error of \<open>open\<close> leaves
  \<open>execute_sql_file\<close> as an exception, no call is made on the database, and no JSON
  document, the history among them, is changed.
\<close>

theorem execute_sql_file_open_error:
  assumes "execute_sql_file e d w sql_file = (r, d', w')"
  shows "(r = Inr False \<longrightarrow>
            (connection d \<noteq> Some Connected \<and> connect_error e \<noteq> None) \<or>
            (\<exists>c. new_events w w' \<noteq> [] \<and> last (new_events w w') = Failed c)) \<and>
         ((connection d = Some Connected \<or> connect_error e = None) \<and>
          files w sql_file = Missing \<longrightarrow>
            r = Inl FileNotFoundError \<and> documents w' = documents w \<and> new_events w w' = []) \<and>
         ((connection d = Some Connected \<or> connect_error e = None) \<and>
          files w sql_file = Denied \<longrightarrow>
            r = Inl PermissionError \<and> documents w' = documents w \<and> new_events w w' = [])"
proof (cases "connection d = Some Connected \<or> connect_error e = None")
  case False
  with execute_sql_file_no_connection [OF _ _ assms(1)] show ?thesis by auto
next
  case conn: True
  show ?thesis
  proof (cases "files w sql_file")
    case (Text body)
    from execute_sql_file_shape [OF conn Text assms(1)] obtain evs failed where
      tr: "db_trace w' = db_trace w @ evs" and
      sr: "script_run (filter non_blank (split_on CHR '';'' body)) evs failed" and
      fl: "failed \<longleftrightarrow> r = Inr False"
      by blast
    from tr have ne: "new_events w w' = evs" by (rule new_events_append)
    have "\<exists>c. evs \<noteq> [] \<and> last evs = Failed c" if "r = Inr False"
    proof -
      from that fl sr have "script_run (filter non_blank (split_on CHR '';'' body)) evs True"
        by simp
      then show ?thesis by (rule script_run_failed_ends)
    qed
    with Text show ?thesis by (simp add: ne)
  next
    case Missing
    with execute_sql_file_unreadable [OF conn _ assms(1)] conn show ?thesis
      by (simp add: new_events_same)
  next
    case Denied
    with execute_sql_file_unreadable [OF conn _ assms(1)] conn show ?thesis
      by (simp add: new_events_same)
  qed
qed

theorem execute_sql_file_open_error_witness:
  "(connection sample_deployer = Some Connected \<or> connect_error sample_env = None) \<and>
   files sample_world ''absent.sql'' = Missing \<and>
   fst (execute_sql_file sample_env sample_deployer sample_world ''absent.sql'') =
     Inl FileNotFoundError \<and>
   documents (snd (snd (execute_sql_file sample_env sample_deployer sample_world ''absent.sql''))) =
     documents sample_world \<and>
   new_events sample_world
     (snd (snd (execute_sql_file sample_env sample_deployer sample_world ''absent.sql''))) = []"
proof -
  let ?X = "execute_sql_file sample_env sample_deployer sample_world ''absent.sql''"
  have conn: "connection sample_deployer = Some Connected \<or> connect_error sample_env = None"
    by (simp add: sample_env_def)
  have readable: "files sample_world ''absent.sql'' = Missing"
    by (simp add: sample_world_def)
  have run: "?X = (fst ?X, fst (snd ?X), snd (snd ?X))" by simp
  from execute_sql_file_open_error [OF run] conn readable show ?thesis by simp
qed

subsection \<open>Closing the connection\<close>

text \<open>
  Claim C9. \<open>disconnect\<close> never raises and leaves no open connection; called on a
  deployer that has no connection object, as the constructor leaves it, it changes
  nothing; and a second call right after a first one changes nothing.
\<close>

theorem disconnect_idempotent:
  "fst (disconnect d w) = Inr () \<and>
   connection (fst (snd (disconnect d w))) \<noteq> Some Connected \<and>
   disconnect (fst (snd (disconnect d w))) (snd (snd (disconnect d w))) =
     (Inr (), snd (disconnect d w)) \<and>
   (connection d = None \<longrightarrow> disconnect d w = (Inr (), d, w)) \<and>
   disconnect (fst (DatabaseDeployer h u p db w)) w' =
     (Inr (), fst (DatabaseDeployer h u p db w), w')"
  by (simp add: disconnect_def DatabaseDeployer_def Let_def)

theorem disconnect_idempotent_witness:
  "connection sample_deployer = None \<and>
   disconnect sample_deployer sample_world = (Inr (), sample_deployer, sample_world) \<and>
   fst (disconnect (sample_deployer\<lparr>connection := Some Connected\<rparr>) sample_world) = Inr () \<and>
   connection (fst (snd (disconnect (sample_deployer\<lparr>connection := Some Connected\<rparr>) sample_world)))
     = Some Closed"
proof -
  have none: "connection sample_deployer = None"
    by (simp add: sample_deployer_def DatabaseDeployer_def Let_def)
  have closed: "connection (fst (snd (disconnect (sample_deployer\<lparr>connection := Some Connected\<rparr>)
                  sample_world))) = Some Closed"
    by (simp add: disconnect_def)
  from disconnect_idempotent [of sample_deployer sample_world]
       disconnect_idempotent [of "sample_deployer\<lparr>connection := Some Connected\<rparr>" sample_world]
       none closed
  show ?thesis by simp
qed

section \<open>Properties of the backup runner\<close>

subsection \<open>Timestamps\<close>

lemma digit_0: "digit 0 = CHR ''0''"
  by (simp add: digit_def)

lemma digit_inj: "a < 10 \<Longrightarrow> b < 10 \<Longrightarrow> digit a = digit b \<Longrightarrow> a = b"
proof -
  assume a: "a < 10" and b: "b < 10" and eq: "digit a = digit b"
  have "distinct ''0123456789''" by simp
  moreover have "a < length ''0123456789''" "b < length ''0123456789''" using a b by simp_all
  ultimately show "a = b" using eq unfolding digit_def by (simp only: nth_eq_iff_index_eq)
qed

lemma isdigit_digit: "n < 10 \<Longrightarrow> isdigit (digit n)"
proof -
  assume "n < 10"
  then have "n < length ''0123456789''" by simp
  then have "''0123456789'' ! n \<in> set ''0123456789''" by (rule nth_mem)
  then show ?thesis by (simp only: isdigit_def digit_def)
qed

declare decimal.simps [simp del]

lemma decimal_1: "n < 10 \<Longrightarrow> decimal n = [digit n]"
  by (subst decimal.simps) simp

lemma decimal_2: "10 \<le> n \<Longrightarrow> n < 100 \<Longrightarrow> decimal n = [digit (n div 10), digit (n mod 10)]"
  by (subst decimal.simps) (simp add: decimal_1)

lemma decimal_3:
  "100 \<le> n \<Longrightarrow> n < 1000 \<Longrightarrow>
   decimal n = [digit (n div 100), digit (n div 10 mod 10), digit (n mod 10)]"
  by (subst decimal.simps) (simp add: decimal_2 div_mult2_eq [symmetric])

lemma decimal_4:
  "1000 \<le> n \<Longrightarrow> n < 10000 \<Longrightarrow>
   decimal n = [digit (n div 1000), digit (n div 100 mod 10), digit (n div 10 mod 10),
                digit (n mod 10)]"
  by (subst decimal.simps) (simp add: decimal_3 div_mult2_eq [symmetric])

lemma zero_pad_2: "n < 100 \<Longrightarrow> zero_pad 2 n = [digit (n div 10), digit (n mod 10)]"
  by (cases "n < 10") (simp_all add: zero_pad_def decimal_1 decimal_2 digit_0)

lemma zero_pad_4:
  "1000 \<le> n \<Longrightarrow> n < 10000 \<Longrightarrow>
   zero_pad 4 n = [digit (n div 1000), digit (n div 100 mod 10), digit (n div 10 mod 10),
                   digit (n mod 10)]"
  by (simp add: zero_pad_def decimal_4)

lemma two_digits_inj:
  "a < 100 \<Longrightarrow> b < 100 \<Longrightarrow> digit (a div 10) = digit (b div 10) \<Longrightarrow>
   digit (a mod 10) = digit (b mod 10) \<Longrightarrow> a = b"
proof -
  assume a: "a < 100" and b: "b < 100" and
    hi: "digit (a div 10) = digit (b div 10)" and lo: "digit (a mod 10) = digit (b mod 10)"
  from a b hi have "a div 10 = b div 10" by (intro digit_inj) simp_all
  moreover from lo have "a mod 10 = b mod 10" by (intro digit_inj) simp_all
  ultimately show "a = b" by (metis div_mult_mod_eq)
qed

lemma four_digits_inj:
  assumes "a < 10000" "b < 10000"
    and "digit (a div 1000) = digit (b div 1000)"
    and "digit (a div 100 mod 10) = digit (b div 100 mod 10)"
    and "digit (a div 10 mod 10) = digit (b div 10 mod 10)"
    and "digit (a mod 10) = digit (b mod 10)"
  shows "a = b"
proof -
  have hi: "a div 100 = b div 100"
  proof (rule two_digits_inj)
    show "a div 100 < 100" "b div 100 < 100" using assms(1,2) by arith+
    show "digit (a div 100 div 10) = digit (b div 100 div 10)"
      using assms(3) by (simp add: div_mult2_eq [symmetric])
    show "digit (a div 100 mod 10) = digit (b div 100 mod 10)" by (rule assms(4))
  qed
  have lo: "a mod 100 = b mod 100"
  proof (rule two_digits_inj)
    show "a mod 100 < 100" "b mod 100 < 100" by simp_all
    have "a mod 100 div 10 = a div 10 mod 10" "b mod 100 div 10 = b div 10 mod 10"
      by (simp_all add: mod_mult2_eq [of _ 10 10, simplified])
    then show "digit (a mod 100 div 10) = digit (b mod 100 div 10)" using assms(5) by simp
    have "a mod 100 mod 10 = a mod 10" "b mod 100 mod 10 = b mod 10"
      by (simp_all add: mod_mod_cancel)
    then show "digit (a mod 100 mod 10) = digit (b mod 100 mod 10)" using assms(6) by simp
  qed
  from hi lo show "a = b" by (metis div_mult_mod_eq)
qed

lemma strftime_explicit:
  assumes "clock_reading t"
  shows "strftime t =
    [digit (year t div 1000), digit (year t div 100 mod 10), digit (year t div 10 mod 10),
     digit (year t mod 10),
     digit (month t div 10), digit (month t mod 10),
     digit (day t div 10), digit (day t mod 10), CHR ''_'',
     digit (hour t div 10), digit (hour t mod 10),
     digit (minute t div 10), digit (minute t mod 10),
     digit (second t div 10), digit (second t mod 10)]"
  using assms by (simp add: strftime_def clock_reading_def zero_pad_2 zero_pad_4)

lemma isdigit_tens: "n < 100 \<Longrightarrow> isdigit (digit (n div 10))"
  by (rule isdigit_digit) arith

lemma isdigit_units: "isdigit (digit (n mod 10))"
  by (rule isdigit_digit) simp

lemma isdigit_thousands: "n < 10000 \<Longrightarrow> isdigit (digit (n div 1000))"
  by (rule isdigit_digit) arith

lemma strftime_form:
  assumes "clock_reading t"
  shows "stamp_form (strftime t)"
proof -
  from assms have b: "year t < 10000" "month t < 100" "day t < 100" "hour t < 100"
    "minute t < 100" "second t < 100"
    by (simp_all add: clock_reading_def)
  show ?thesis
    unfolding strftime_explicit [OF assms] stamp_form_def
    by (simp add: isdigit_tens isdigit_units isdigit_thousands b)
qed

lemma strftime_inj:
  assumes "clock_reading t" "clock_reading t'" "strftime t = strftime t'"
  shows "wall_clock_second t = wall_clock_second t'"
proof -
  from assms have eq:
    "digit (year t div 1000) = digit (year t' div 1000)"
    "digit (year t div 100 mod 10) = digit (year t' div 100 mod 10)"
    "digit (year t div 10 mod 10) = digit (year t' div 10 mod 10)"
    "digit (year t mod 10) = digit (year t' mod 10)"
    "digit (month t div 10) = digit (month t' div 10)" "digit (month t mod 10) = digit (month t' mod 10)"
    "digit (day t div 10) = digit (day t' div 10)" "digit (day t mod 10) = digit (day t' mod 10)"
    "digit (hour t div 10) = digit (hour t' div 10)" "digit (hour t mod 10) = digit (hour t' mod 10)"
    "digit (minute t div 10) = digit (minute t' div 10)" "digit (minute t mod 10) = digit (minute t' mod 10)"
    "digit (second t div 10) = digit (second t' div 10)" "digit (second t mod 10) = digit (second t' mod 10)"
    by (simp_all add: strftime_explicit)
  from assms(1,2) have b:
    "year t < 10000" "year t' < 10000" "month t < 100" "month t' < 100" "day t < 100" "day t' < 100"
    "hour t < 100" "hour t' < 100" "minute t < 100" "minute t' < 100" "second t < 100" "second t' < 100"
    by (simp_all add: clock_reading_def)
  have "year t = year t'" using b eq by (intro four_digits_inj) simp_all
  moreover have "month t = month t'" using b eq by (intro two_digits_inj) simp_all
  moreover have "day t = day t'" using b eq by (intro two_digits_inj) simp_all
  moreover have "hour t = hour t'" using b eq by (intro two_digits_inj) simp_all
  moreover have "minute t = minute t'" using b eq by (intro two_digits_inj) simp_all
  moreover have "second t = second t'" using b eq by (intro two_digits_inj) simp_all
  ultimately show ?thesis by (simp add: wall_clock_second_def)
qed

subsection \<open>Paths and single backups\<close>

lemma startswith_name: "startswith (dbname @ ''_'' @ x) ''/'' = startswith dbname ''/''"
  by (cases dbname) (simp_all add: startswith_def)

lemma endswith_append: "endswith (p @ s) s"
  by (simp add: endswith_def)

lemma os_path_join_endswith: "endswith (os_path_join a s) s"
  using endswith_append [of "[]" s] endswith_append [of a s] endswith_append [of "a @ ''/''" s]
  by (simp add: os_path_join_def)

lemma os_path_join_nonempty: "s \<noteq> [] \<Longrightarrow> os_path_join a s \<noteq> []"
  by (simp add: os_path_join_def)

lemma backup_file_path_nonempty: "backup_file_path b t dbname \<noteq> []"
  by (simp add: backup_file_path_def os_path_join_nonempty)

lemma backup_file_path_relative:
  "\<not> startswith dbname ''/'' \<Longrightarrow>
   backup_file_path b t dbname =
     (if backup_dir b = [] \<or> endswith (backup_dir b) ''/'' then backup_dir b
      else backup_dir b @ ''/'') @ dbname @ ''_'' @ strftime t @ ''.sql''"
  using startswith_name [of dbname "strftime t @ ''.sql''"]
  by (simp add: backup_file_path_def os_path_join_def)

lemma backup_file_path_inj:
  "backup_file_path b t dbname = backup_file_path b t' dbname \<Longrightarrow> strftime t = strftime t'"
  using startswith_name [of dbname "strftime t @ ''.sql''"]
        startswith_name [of dbname "strftime t' @ ''.sql''"]
  by (auto simp: backup_file_path_def os_path_join_def Let_def split: if_splits)

lemma create_backup_opened:
  "open_error e = None \<Longrightarrow>
   opened (snd (create_backup b e w dbname)) = opened w @ [backup_file_path b (clock e) dbname]"
  by (auto simp: create_backup_def Let_def logging_def split: sum.splits exn.splits)

lemma create_backup_succeeds:
  "dump_succeeds e \<Longrightarrow>
   fst (create_backup b e w dbname) = Inr (Some (backup_file_path b (clock e) dbname))"
  by (auto simp: create_backup_def Let_def dump_succeeds_def dump_exit_def subprocess_run_def
           split: option.splits sum.splits)

lemma create_backup_fails:
  "dump_fails e \<Longrightarrow> fst (create_backup b e w dbname) = Inr None"
  by (auto simp: create_backup_def Let_def dump_fails_def dump_exit_def subprocess_run_def
           split: option.splits sum.splits)


lemma upt_Suc_shift: "[0..<Suc n] = 0 # map Suc [0..<n]"
  by (simp add: upt_conv_Cons map_Suc_upt del: upt_Suc)

lemma round_paths_Cons:
  "map (\<lambda>i. backup_file_path b (clock (envs (k + i))) ((x # xs) ! i))
       (filter (\<lambda>i. dump_exit (envs (k + i)) = Some 0) [0..<length (x # xs)]) =
   (if dump_exit (envs k) = Some 0 then [backup_file_path b (clock (envs k)) x] else []) @
   map (\<lambda>i. backup_file_path b (clock (envs (Suc k + i))) (xs ! i))
       (filter (\<lambda>i. dump_exit (envs (Suc k + i)) = Some 0) [0..<length xs])"
  by (simp add: upt_Suc_shift filter_map o_def del: upt_Suc)

lemma backup_loop_result:
  assumes "\<forall>i<length dbs. dump_exit (envs (k + i)) \<noteq> None"
  shows "fst (backup_loop b envs k w acc dbs) =
           Inr (acc @ map (\<lambda>i. backup_file_path b (clock (envs (k + i))) (dbs ! i))
                          (filter (\<lambda>i. dump_exit (envs (k + i)) = Some 0) [0..<length dbs]))"
  using assms
proof (induction dbs arbitrary: k w acc)
  case Nil
  then show ?case by simp
next
  case (Cons x xs)
  from Cons.prems have here: "dump_exit (envs k) \<noteq> None" by force
  have rest: "\<forall>i<length xs. dump_exit (envs (Suc k + i)) \<noteq> None"
  proof (intro allI impI)
    fix i assume "i < length xs"
    then have "Suc i < length (x # xs)" by simp
    with Cons.prems have "dump_exit (envs (k + Suc i)) \<noteq> None" by blast
    then show "dump_exit (envs (Suc k + i)) \<noteq> None" by simp
  qed
  obtain r w1 where cb: "create_backup b (envs k) w x = (r, w1)"
    by (cases "create_backup b (envs k) w x")
  show ?case
  proof (cases "dump_exit (envs k) = Some 0")
    case True
    then have "dump_succeeds (envs k)" by (simp add: dump_succeeds_def)
    from create_backup_succeeds [OF this, of b w x] cb
    have r: "r = Inr (Some (backup_file_path b (clock (envs k)) x))" by simp
    show ?thesis
      unfolding round_paths_Cons
      using Cons.IH [OF rest, of w1 "acc @ [backup_file_path b (clock (envs k)) x]"] True
      by (simp add: cb r backup_file_path_nonempty)
  next
    case False
    with here have "dump_fails (envs k)" by (auto simp: dump_fails_def)
    from create_backup_fails [OF this, of b w x] cb have r: "r = Inr None" by simp
    show ?thesis
      unfolding round_paths_Cons
      using Cons.IH [OF rest, of w1 acc] False
      by (simp add: cb r)
  qed
qed

lemma length_filter_except: "j < n \<Longrightarrow> length (filter (\<lambda>k. k \<noteq> j) [0..<n]) = n - 1"
proof -
  assume j: "j < n"
  have "length (filter (\<lambda>k. k \<noteq> j) [0..<n]) = card ({k. k \<noteq> j} \<inter> set [0..<n])"
    by (rule distinct_length_filter) simp
  also have "{k. k \<noteq> j} \<inter> set [0..<n] = {0..<n} - {j}" by auto
  also have "card ({0..<n} - {j}) = n - 1" using j by simp
  finally show ?thesis .
qed

lemmas backup_defs = get_databases_def subprocess_run_def sample_backup_def sample_listing_def
  failed_listing_def sample_dumps_def sample_time_def sample_world_def logging_def strip_def
  isspace_def Let_def

lemmas stamp_defs = backup_file_path_def os_path_join_def startswith_def endswith_def
  strftime_def zero_pad_def decimal.simps digit_def

lemma sample_databases:
  "fst (get_databases sample_backup sample_listing sample_world) =
     Inr [''assignment1'', ''shop'', ''blog'']"
  by (simp add: backup_defs)

lemma sample_clock: "clock_reading (clock (sample_dumps k)) \<longleftrightarrow> k < 53"
  by (auto simp: clock_reading_def sample_dumps_def sample_time_def)

subsection \<open>Listing the databases\<close>

text \<open>
  Claim C5. When running the listing command raises \<open>CalledProcessError\<close>, the error
  of a command that ends with an exit status other than zero, \<open>get_databases\<close> returns
  the empty list and raises nothing; besides that result the failure shows in the log
  only.
\<close>

theorem get_databases_fails_soft:
  "subprocess_run listing = Inl (CalledProcessError rc) \<Longrightarrow>
   fst (get_databases b listing w) = Inr [] \<and>
   log_lines (snd (get_databases b listing w)) =
     log_lines w @ [ERROR ''Error getting databases: '' (Some (CalledProcessError rc))]"
  by (simp add: get_databases_def logging_def Let_def)

theorem get_databases_fails_soft_witness:
  "subprocess_run (Inr failed_listing) = Inl (CalledProcessError 1) \<and>
   fst (get_databases sample_backup (Inr failed_listing) sample_world) = Inr []"
proof -
  have h: "subprocess_run (Inr failed_listing) = Inl (CalledProcessError 1)"
    by (simp add: subprocess_run_def failed_listing_def)
  from get_databases_fails_soft [OF h, of sample_backup sample_world] h show ?thesis by simp
qed

text \<open>
  Claim C6. Whatever the listing command prints, a list returned by \<open>get_databases\<close>
  contains none of \<open>information_schema\<close>, \<open>performance_schema\<close>, \<open>mysql\<close> and
  \<open>sys\<close>.
\<close>

theorem get_databases_excludes_system_schemas:
  "fst (get_databases b listing w) = Inr dbs \<Longrightarrow>
   ''information_schema'' \<notin> set dbs \<and> ''performance_schema'' \<notin> set dbs \<and>
   ''mysql'' \<notin> set dbs \<and> ''sys'' \<notin> set dbs"
  by (auto simp: get_databases_def Let_def split: sum.splits exn.splits)

theorem get_databases_excludes_system_schemas_witness:
  "fst (get_databases sample_backup sample_listing sample_world) =
     Inr [''assignment1'', ''shop'', ''blog''] \<and>
   ''information_schema'' \<notin> set [''assignment1'', ''shop'', ''blog''] \<and>
   ''performance_schema'' \<notin> set [''assignment1'', ''shop'', ''blog''] \<and>
   ''mysql'' \<notin> set [''assignment1'', ''shop'', ''blog''] \<and>
   ''sys'' \<notin> set [''assignment1'', ''shop'', ''blog'']"
  using get_databases_excludes_system_schemas [OF sample_databases] sample_databases
  by simp

subsection \<open>The name of a backup file\<close>

text \<open>
  Claim C7, as amended. For a clock reading \<open>t\<close>, \<open>create_backup\<close> opens, and returns
  when the dump succeeds, a path that ends with the database name, an underscore, the
  stamp of \<open>t\<close> in the form \<open>YYYYMMDD_HHMMSS\<close> and \<open>.sql\<close>. When the name does not
  begin with \<open>/\<close>, the path is the backup directory, one \<open>/\<close> (none when the directory
  is empty or ends with one), and that file name. Two readings that differ in their
  wall-clock second give two different paths for the same name.
\<close>

theorem create_backup_file_name:
  assumes "clock_reading (clock e)"
  shows "stamp_form (strftime (clock e)) \<and>
         endswith (backup_file_path b (clock e) dbname)
                  (dbname @ ''_'' @ strftime (clock e) @ ''.sql'') \<and>
         (\<not> startswith dbname ''/'' \<longrightarrow>
            backup_file_path b (clock e) dbname =
              (if backup_dir b = [] \<or> endswith (backup_dir b) ''/'' then backup_dir b
               else backup_dir b @ ''/'') @ dbname @ ''_'' @ strftime (clock e) @ ''.sql'') \<and>
         (open_error e = None \<longrightarrow>
            opened (snd (create_backup b e w dbname)) =
              opened w @ [backup_file_path b (clock e) dbname]) \<and>
         (dump_succeeds e \<longrightarrow>
            fst (create_backup b e w dbname) = Inr (Some (backup_file_path b (clock e) dbname))) \<and>
         (clock_reading (clock e') \<and> wall_clock_second (clock e') \<noteq> wall_clock_second (clock e) \<longrightarrow>
            backup_file_path b (clock e') dbname \<noteq> backup_file_path b (clock e) dbname)"
proof -
  have "endswith (backup_file_path b (clock e) dbname)
                 (dbname @ ''_'' @ strftime (clock e) @ ''.sql'')"
    using os_path_join_endswith [of "backup_dir b" "dbname @ ''_'' @ strftime (clock e) @ ''.sql''"]
    by (simp add: backup_file_path_def)
  moreover have "backup_file_path b (clock e') dbname \<noteq> backup_file_path b (clock e) dbname"
    if "clock_reading (clock e')" "wall_clock_second (clock e') \<noteq> wall_clock_second (clock e)"
    using that strftime_inj [OF that(1) assms] backup_file_path_inj [of b "clock e'" dbname "clock e"]
    by blast
  ultimately show ?thesis
    using strftime_form [OF assms] backup_file_path_relative [of dbname b "clock e"]
          create_backup_opened [of e b w dbname] create_backup_succeeds [of e b w dbname]
    by blast
qed

theorem create_backup_file_name_witness:
  "clock_reading (clock (sample_dumps 0)) \<and> clock_reading (clock (sample_dumps 1)) \<and>
   \<not> startswith ''assignment1'' ''/'' \<and> dump_succeeds (sample_dumps 0) \<and>
   wall_clock_second (clock (sample_dumps 1)) \<noteq> wall_clock_second (clock (sample_dumps 0)) \<and>
   stamp_form ''20240309_140507'' \<and>
   fst (create_backup sample_backup (sample_dumps 0) sample_world ''assignment1'') =
     Inr (Some ''mysql_backups/assignment1_20240309_140507.sql'') \<and>
   backup_file_path sample_backup (clock (sample_dumps 1)) ''assignment1'' \<noteq>
     ''mysql_backups/assignment1_20240309_140507.sql''"
proof -
  have c0: "clock_reading (clock (sample_dumps 0))" and c1: "clock_reading (clock (sample_dumps 1))"
    by (simp_all add: sample_clock)
  have rel: "\<not> startswith ''assignment1'' ''/''" by (simp add: startswith_def)
  have ok: "dump_succeeds (sample_dumps 0)"
    by (simp add: dump_succeeds_def dump_exit_def sample_dumps_def)
  have later: "wall_clock_second (clock (sample_dumps 1)) \<noteq> wall_clock_second (clock (sample_dumps 0))"
    by (simp add: wall_clock_second_def sample_dumps_def)
  have stamp: "strftime (clock (sample_dumps 0)) = ''20240309_140507''"
    by (simp add: sample_dumps_def sample_time_def stamp_defs)
  have path: "backup_file_path sample_backup (clock (sample_dumps 0)) ''assignment1'' =
                ''mysql_backups/assignment1_20240309_140507.sql''"
    by (simp add: sample_dumps_def sample_time_def sample_backup_def stamp_defs)
  from create_backup_file_name [OF c0, of sample_backup "''assignment1''" sample_world "sample_dumps 1"]
       c0 c1 rel ok later stamp path
  show ?thesis by simp
qed

text \<open>
  The claim as stated fails for a name that begins with \<open>/\<close>: \<open>os.path.join\<close> drops
  the backup directory, and the file is written outside it.
\<close>

theorem create_backup_file_name_counterexample:
  "fst (create_backup sample_backup (sample_dumps 0) sample_world ''/tmp/x'') =
     Inr (Some ''/tmp/x_20240309_140507.sql'') \<and>
   backup_dir sample_backup = ''mysql_backups'' \<and>
   \<not> startswith ''/tmp/x_20240309_140507.sql'' ''mysql_backups''"
  by (simp add: create_backup_def backup_defs stamp_defs)

subsection \<open>Backing up every database\<close>

text \<open>
  Claim C8. When \<open>get_databases\<close> returns N names, the dump of round \<open>j\<close> fails and
  the dumps of all other rounds succeed, \<open>backup_all_databases\<close> raises nothing and
  returns N - 1 paths: those of the rounds other than \<open>j\<close>, in the order of the rounds.
\<close>

theorem backup_all_databases_partial_failure:
  assumes "fst (get_databases b listing w) = Inr dbs"
    and "j < length dbs" and "dump_fails (envs j)"
    and "\<forall>k<length dbs. k \<noteq> j \<longrightarrow> dump_succeeds (envs k)"
  shows "fst (backup_all_databases b listing envs w) =
           Inr (map (\<lambda>k. backup_file_path b (clock (envs k)) (dbs ! k))
                    (filter (\<lambda>k. k \<noteq> j) [0..<length dbs])) \<and>
         length (map (\<lambda>k. backup_file_path b (clock (envs k)) (dbs ! k))
                     (filter (\<lambda>k. k \<noteq> j) [0..<length dbs])) = length dbs - 1"
proof -
  have ex: "\<forall>i<length dbs. dump_exit (envs (0 + i)) \<noteq> None"
  proof (intro allI impI)
    fix i assume i: "i < length dbs"
    show "dump_exit (envs (0 + i)) \<noteq> None"
    proof (cases "i = j")
      case True
      with assms(3) show ?thesis by (auto simp: dump_fails_def split: option.splits)
    next
      case False
      with assms(4) i have "dump_succeeds (envs i)" by blast
      then show ?thesis by (simp add: dump_succeeds_def)
    qed
  qed
  have ok: "filter (\<lambda>i. dump_exit (envs (0 + i)) = Some 0) [0..<length dbs] =
            filter (\<lambda>k. k \<noteq> j) [0..<length dbs]"
  proof (rule filter_cong [OF refl])
    fix i assume "i \<in> set [0..<length dbs]"
    then have i: "i < length dbs" by simp
    show "(dump_exit (envs (0 + i)) = Some 0) = (i \<noteq> j)"
    proof (cases "i = j")
      case True
      with assms(3) show ?thesis by (auto simp: dump_fails_def split: option.splits)
    next
      case False
      with assms(4) i have "dump_succeeds (envs i)" by blast
      with False show ?thesis by (simp add: dump_succeeds_def)
    qed
  qed
  obtain w1 where gd: "get_databases b listing w = (Inr dbs, w1)"
    using assms(1) by (cases "get_databases b listing w") simp
  have "fst (backup_all_databases b listing envs w) = fst (backup_loop b envs 0 w1 [] dbs)"
    by (simp add: backup_all_databases_def gd)
  also have "\<dots> = Inr (map (\<lambda>k. backup_file_path b (clock (envs k)) (dbs ! k))
                         (filter (\<lambda>k. k \<noteq> j) [0..<length dbs]))"
    using backup_loop_result [OF ex, of b w1 "[]"] ok by simp
  finally show ?thesis using length_filter_except [OF assms(2)] by simp
qed

theorem backup_all_databases_partial_failure_witness:
  "fst (get_databases sample_backup sample_listing sample_world) =
     Inr [''assignment1'', ''shop'', ''blog''] \<and>
   dump_fails (sample_dumps 1) \<and> dump_succeeds (sample_dumps 0) \<and> dump_succeeds (sample_dumps 2) \<and>
   fst (backup_all_databases sample_backup sample_listing sample_dumps sample_world) =
     Inr [''mysql_backups/assignment1_20240309_140507.sql'',
          ''mysql_backups/blog_20240309_140509.sql'']"
proof -
  have j: "1 < length [''assignment1'', ''shop'', ''blog'']" by simp
  have bad: "dump_fails (sample_dumps 1)"
    by (simp add: dump_fails_def dump_exit_def sample_dumps_def)
  have good: "\<forall>k<length [''assignment1'', ''shop'', ''blog'']. k \<noteq> 1 \<longrightarrow> dump_succeeds (sample_dumps k)"
    by (simp add: dump_succeeds_def dump_exit_def sample_dumps_def)
  have rounds: "filter (\<lambda>k. k \<noteq> 1) [0..<length [''assignment1'', ''shop'', ''blog'']] = [0, 2]"
    by (simp add: upt_rec)
  have p0: "backup_file_path sample_backup (clock (sample_dumps 0)) ''assignment1'' =
              ''mysql_backups/assignment1_20240309_140507.sql''"
    by (simp add: sample_dumps_def sample_time_def sample_backup_def stamp_defs)
  have p2: "backup_file_path sample_backup (clock (sample_dumps (Suc (Suc 0)))) ''blog'' =
              ''mysql_backups/blog_20240309_140509.sql''"
    by (simp add: sample_dumps_def sample_time_def sample_backup_def stamp_defs)
  from backup_all_databases_partial_failure [OF sample_databases j bad good]
       sample_databases bad good rounds p0 p2
  show ?thesis by simp
qed

end
